theory Spec2Isabelle
  imports
    Main
    "HOL-Library.Char_ord"
    "HOL-Library.List_Lexorder"
    "HOL-Library.Product_Lexorder"
begin

section \<open>AlphaMail: the query gateway, the action endpoint and the card stack\<close>

text \<open>
  The development embeds three pieces of the repository:
  \<^item> the route handler \<^verbatim>\<open>GET\<close> of \<^verbatim>\<open>/api/emails\<close>, which queries the Firestore
    collection \<^verbatim>\<open>emails\<close> and maps each document to an \<^verbatim>\<open>EmailSummary\<close>;
  \<^item> the route handler \<^verbatim>\<open>POST\<close> of \<^verbatim>\<open>/api/email-action\<close>;
  \<^item> the React component \<^verbatim>\<open>EmailCardStack\<close> with its \<^verbatim>\<open>handleAction\<close>.
\<close>

subsection \<open>Firestore values\<close>

text \<open>
  The fields of a document as \<^verbatim>\<open>doc.data()\<close> hands them to JavaScript. Numbers are the
  integers. A timestamp is taken at the resolution of a millisecond, as the number of
  milliseconds since the epoch: the instant of the date that \<^verbatim>\<open>toDate()\<close> makes of it.
  Doubles, bytes, references and geo points are outside the model.
\<close>

datatype fsval =
    FNull
  | FBool bool
  | FNum int
  | FTime int
  | FStr string
  | FArr "fsval list"
  | FMap "(string \<times> fsval) list"

text \<open>
  A document's data is a JavaScript object: reading a property that is absent gives
  \<^verbatim>\<open>undefined\<close>, here \<open>None\<close>.
\<close>

type_synonym doc_data = "string \<rightharpoonup> fsval"

text \<open>A collection: the documents with their document ids.\<close>

type_synonym collection = "(string \<times> doc_data) list"

text \<open>JavaScript's truthiness, as \<^verbatim>\<open>||\<close> and \<^verbatim>\<open>?:\<close> test it.\<close>

fun truthy :: "fsval option \<Rightarrow> bool" where
  "truthy None = False"
| "truthy (Some FNull) = False"
| "truthy (Some (FBool b)) = b"
| "truthy (Some (FNum n)) = (n \<noteq> 0)"
| "truthy (Some (FStr s)) = (s \<noteq> [])"
| "truthy (Some (FTime t)) = True"
| "truthy (Some (FArr xs)) = True"
| "truthy (Some (FMap kvs)) = True"

subsection \<open>The order of Firestore values\<close>

text \<open>
  \<^verbatim>\<open>orderBy\<close> compares values of any type: first by type (null, boolean, number,
  timestamp, string, array, map, in this order), then inside the type; arrays element by
  element and maps entry by entry in the order of their keys, a proper prefix being
  smaller. A value is flattened into the list of its tokens, and two values compare as
  their token lists do in the lexicographic order: the token that closes an array or a
  map is smaller than every token that continues it.
\<close>

type_synonym token = "nat \<times> int \<times> string"

fun fs_tokens :: "fsval \<Rightarrow> token list" where
  "fs_tokens FNull = [(2, 0, [])]"
| "fs_tokens (FBool b) = [(3, (if b then 1 else 0), [])]"
| "fs_tokens (FNum n) = [(4, n, [])]"
| "fs_tokens (FTime t) = [(5, t, [])]"
| "fs_tokens (FStr s) = [(6, 0, s)]"
| "fs_tokens (FArr xs) =
     (10, 0, []) # concat (map (\<lambda>x. (1, 0, []) # fs_tokens x) xs) @ [(0, 0, [])]"
| "fs_tokens (FMap kvs) =
     (11, 0, []) #
     concat (map (\<lambda>kt. (1, 0, fst kt) # snd kt)
       (sort_key fst (map (\<lambda>kv. (fst kv, fs_tokens (snd kv))) kvs))) @ [(0, 0, [])]"

subsection \<open>The query of the gateway\<close>

text \<open>
  \<^verbatim>\<open>.where(field, "==", value)\<close> keeps the documents whose field is present and equal to
  the value.
\<close>

definition where_eq :: "string \<Rightarrow> fsval \<Rightarrow> collection \<Rightarrow> collection" where
  "where_eq field v c = filter (\<lambda>d. (snd d) field = Some v) c"

text \<open>
  \<^verbatim>\<open>.orderBy(field, "desc")\<close> keeps the documents that have the field, and orders them by
  the field's value, largest first; documents with equal values are ordered by their
  document ids, in the same direction.
\<close>

definition order_key :: "string \<Rightarrow> string \<times> doc_data \<Rightarrow> token list \<times> string" where
  "order_key field d =
     ((case (snd d) field of None \<Rightarrow> [] | Some v \<Rightarrow> fs_tokens v), fst d)"

definition order_by_desc :: "string \<Rightarrow> collection \<Rightarrow> collection" where
  "order_by_desc field c =
     rev (sort_key (order_key field) (filter (\<lambda>d. (snd d) field \<noteq> None) c))"

definition limit :: "nat \<Rightarrow> collection \<Rightarrow> collection" where
  "limit n c = take n c"

definition userId :: string where
  "userId = ''default''"

text \<open>The snapshot of the query that \<^verbatim>\<open>GET\<close> builds: its documents, in order.\<close>

definition emailsSnapshot :: "collection \<Rightarrow> collection" where
  "emailsSnapshot c =
     limit 20
       (order_by_desc ''received_date''
         (where_eq ''discard'' (FBool False)
           (where_eq ''is_read'' (FBool False)
             (where_eq ''user_id'' (FStr userId) c))))"

text \<open>
  The stored documents have no field named disposition: the fields \<^verbatim>\<open>is_read\<close> and
  \<^verbatim>\<open>discard\<close> carry it. A record is unread, that is not yet disposed of, when both
  are \<^verbatim>\<open>false\<close>; this is what the query asks for.
\<close>

definition disposition_unread :: "doc_data \<Rightarrow> bool" where
  "disposition_unread data =
     (data ''is_read'' = Some (FBool False) \<and> data ''discard'' = Some (FBool False))"

text \<open>A record that the query can return: unread, of the user, with a date to order by.\<close>

definition query_matches :: "doc_data \<Rightarrow> bool" where
  "query_matches data =
     (data ''user_id'' = Some (FStr userId) \<and> disposition_unread data \<and>
      data ''received_date'' \<noteq> None)"

subsection \<open>Mapping a document to an EmailSummary\<close>

text \<open>
  The object that the handler builds for a document. Its fields hold what JavaScript puts
  there, whatever the TypeScript interface says: a field of the document (\<open>None\<close> when
  the document lacks it), or a value computed from one. \<open>receivedDate\<close> is an ISO string
  in the source; the model keeps the instant that the string denotes, in milliseconds
  since the epoch.
\<close>

record email_json =
  id' :: "fsval option"
  subject :: "fsval option"
  sender :: "fsval option"
  summary :: "fsval option"
  fullContent :: "fsval option"
  receivedDate :: int
  actionRequired :: fsval
  actionDescription :: "string option"
  status :: string

text \<open>
  \<^verbatim>\<open>data.received_date?.toDate ? data.received_date.toDate().toISOString()
       : new Date().toISOString()\<close>
  Only a timestamp has a method \<^verbatim>\<open>toDate\<close>. A map has the property when it has the
  key; the call of a truthy value that is no function raises a TypeError, here \<open>Inl\<close>
  with the error's message. \<open>now\<close> is the time of the request.
\<close>

fun receivedDate_of :: "int \<Rightarrow> fsval option \<Rightarrow> string + int" where
  "receivedDate_of now (Some (FTime t)) = Inr t"
| "receivedDate_of now (Some (FMap kvs)) =
     (if truthy (map_of kvs ''toDate'')
      then Inl ''data.received_date.toDate is not a function''
      else Inr now)"
| "receivedDate_of now _ = Inr now"

definition to_email :: "int \<Rightarrow> doc_data \<Rightarrow> string + email_json" where
  "to_email now data =
     (case receivedDate_of now (data ''received_date'') of
        Inl err \<Rightarrow> Inl err
      | Inr date \<Rightarrow> Inr \<lparr>
          id' = data ''gmail_id'',
          subject = data ''subject'',
          sender = data ''sender'',
          summary = (if truthy (data ''summary'') then data ''summary'' else data ''snippet''),
          fullContent = data ''body'',
          receivedDate = date,
          actionRequired =
            (case data ''is_important'' of
               Some v \<Rightarrow> (if truthy (Some v) then v else FBool False)
             | None \<Rightarrow> FBool False),
          actionDescription =
            (if truthy (data ''is_important'')
             then Some ''This email is marked as important.'' else None),
          status = ''none'' \<rparr>)"

text \<open>A field that holds a string with at least one character.\<close>

fun nonempty_text :: "fsval option \<Rightarrow> bool" where
  "nonempty_text (Some (FStr s)) = (s \<noteq> [])"
| "nonempty_text v = False"

text \<open>\<^verbatim>\<open>docs.map(...)\<close>: the first exception ends the loop.\<close>

fun map_docs :: "int \<Rightarrow> collection \<Rightarrow> string + email_json list" where
  "map_docs now [] = Inr []"
| "map_docs now (d # ds) =
     (case to_email now (snd d) of
        Inl err \<Rightarrow> Inl err
      | Inr e \<Rightarrow> (case map_docs now ds of Inl err \<Rightarrow> Inl err | Inr es \<Rightarrow> Inr (e # es)))"

subsection \<open>The handler GET\<close>

text \<open>
  The document store either answers the query or rejects it (no connection, no
  credentials); the rejection carries its message.
\<close>

datatype firestore = Rejects string | Holds collection

datatype get_body =
    EmailsBody "email_json list"
  | ErrorBody string string

record 'b response =
  http_status :: nat
  json_body :: 'b

definition GET :: "firestore \<Rightarrow> int \<Rightarrow> get_body response" where
  "GET db now =
     (case db of
        Rejects err \<Rightarrow>
          \<lparr>http_status = 500,
           json_body = ErrorBody ''Failed to fetch emails from Firestore.'' err\<rparr>
      | Holds c \<Rightarrow>
          (if emailsSnapshot c = []
           then \<lparr>http_status = 200, json_body = EmailsBody []\<rparr>
           else
             (case map_docs now (emailsSnapshot c) of
                Inl err \<Rightarrow>
                  \<lparr>http_status = 500,
                   json_body = ErrorBody ''Failed to fetch emails from Firestore.'' err\<rparr>
              | Inr emails \<Rightarrow> \<lparr>http_status = 200, json_body = EmailsBody emails\<rparr>)))"

subsection \<open>The handler POST\<close>

text \<open>
  What \<^verbatim>\<open>request.json()\<close> gives when the body is JSON. Numbers are the integers.
\<close>

datatype json =
    JNull
  | JBool bool
  | JNum int
  | JStr string
  | JArr "json list"
  | JObj "(string \<times> json) list"

text \<open>
  \<^verbatim>\<open>const { emailId, action } = await request.json()\<close> reads two properties of the value.
  Of \<^verbatim>\<open>null\<close> no property can be read: a TypeError. An object has the properties that
  are its keys (the last one when a key is written twice); every other value has
  neither of the two, and the variable is \<^verbatim>\<open>undefined\<close>, here \<open>None\<close>.
\<close>

fun property :: "json \<Rightarrow> string \<Rightarrow> json option option" where
  "property JNull name = None"
| "property (JObj kvs) name = Some (map_of (rev kvs) name)"
| "property v name = Some None"

text \<open>
  The template literal of the log line turns \<^verbatim>\<open>action\<close> and \<^verbatim>\<open>emailId\<close> into strings.
  An object is converted by its method \<^verbatim>\<open>toString\<close>: the inherited one, unless the object
  has a key of this name, whose value is no function, and then the conversion raises a
  TypeError. An array is joined: \<^verbatim>\<open>Array.prototype.join\<close> converts the elements
  (\<^verbatim>\<open>null\<close> gives the empty string), calling itself for an array among them, and builds
  one string of the results. The engine ends the joining with a RangeError when its
  stack or the length it allows a string is used up, as for an array nested some
  thousand levels deep. These limits are the engine's, not the repository's: the
  predicate \<open>exhausts\<close> says which arrays the engine cannot join.
\<close>

type_synonym engine = "json \<Rightarrow> bool"

fun to_string_raises :: "engine \<Rightarrow> json \<Rightarrow> bool" where
  "to_string_raises exhausts (JArr xs) =
     (exhausts (JArr xs) \<or> list_ex (to_string_raises exhausts) xs)"
| "to_string_raises exhausts (JObj kvs) = (''toString'' \<in> set (map fst kvs))"
| "to_string_raises exhausts v = False"

fun template_raises :: "engine \<Rightarrow> json option \<Rightarrow> bool" where
  "template_raises exhausts None = False"
| "template_raises exhausts (Some v) = to_string_raises exhausts v"

record action_body =
  success :: bool
  message :: string

definition action_disabled :: "action_body response" where
  "action_disabled =
     \<lparr>http_status = 200, json_body = \<lparr>success = True, message = ''Action disabled.''\<rparr>\<rparr>"

definition internal_server_error :: "action_body response" where
  "internal_server_error =
     \<lparr>http_status = 500,
      json_body = \<lparr>success = False, message = ''Internal Server Error''\<rparr>\<rparr>"

text \<open>
  The handler runs on an engine; it gets the stored collection and the parsed body of
  the request (\<open>None\<close> when the body is no JSON, and \<^verbatim>\<open>request.json()\<close> rejects), and
  returns the collection as it is afterwards, with the response. It never calls the
  document store.
\<close>

definition POST ::
  "engine \<Rightarrow> collection \<Rightarrow> json option \<Rightarrow> collection \<times> action_body response" where
  "POST exhausts db request =
     (case request of
        None \<Rightarrow> (db, internal_server_error)
      | Some v \<Rightarrow>
          (case (property v ''emailId'', property v ''action'') of
             (Some emailId, Some action) \<Rightarrow>
               (if template_raises exhausts action \<or> template_raises exhausts emailId
                then (db, internal_server_error)
                else (db, action_disabled))
           | _ \<Rightarrow> (db, internal_server_error)))"

text \<open>
  In words, when the log line can be written. The conversion of a value comes to the
  value itself and, when it is an array, to all that the conversion of its elements
  comes to. It stops at an array that the engine cannot join and at an object with a
  key \<^verbatim>\<open>toString\<close>. A variable can be written into the log line when it is
  \<^verbatim>\<open>undefined\<close>, or its conversion stops nowhere.
\<close>

fun converted :: "json \<Rightarrow> json list" where
  "converted (JArr xs) = JArr xs # concat (map converted xs)"
| "converted v = [v]"

fun stops_conversion :: "engine \<Rightarrow> json \<Rightarrow> bool" where
  "stops_conversion exhausts (JArr xs) = exhausts (JArr xs)"
| "stops_conversion exhausts (JObj kvs) = (''toString'' \<in> fst ` set kvs)"
| "stops_conversion exhausts v = False"

definition loggable :: "engine \<Rightarrow> json option \<Rightarrow> bool" where
  "loggable exhausts x =
     (case x of
        None \<Rightarrow> True
      | Some v \<Rightarrow> list_all (\<lambda>u. \<not> stops_conversion exhausts u) (converted v))"

subsection \<open>The card stack of the client\<close>

datatype email_status = StatusNone | StatusFlag | StatusKeep | StatusDiscard

text \<open>The interface \<^verbatim>\<open>EmailSummary\<close>, as the client types its items.\<close>

record EmailSummary =
  id' :: string
  subject :: string
  sender :: string
  summary :: string
  receivedDate :: string
  actionRequired :: bool
  fullContent :: string
  actionDescription :: "string option"
  status :: email_status

datatype action = Keep | Discard | Flag

fun action_name :: "action \<Rightarrow> string" where
  "action_name Keep = ''keep''"
| "action_name Discard = ''discard''"
| "action_name Flag = ''flag''"

text \<open>The state of the component: its two \<^verbatim>\<open>useState\<close> cells.\<close>

record card_stack =
  emails :: "EmailSummary list"
  exitDirection :: "action option"

definition EmailCardStack :: "EmailSummary list \<Rightarrow> card_stack" where
  "EmailCardStack initialEmails = \<lparr>emails = initialEmails, exitDirection = None\<rparr>"

text \<open>
  \<^verbatim>\<open>handleAction\<close> runs in two parts. Up to its \<^verbatim>\<open>await\<close> it runs at once, within the
  event of the user: it sets the exit direction and filters the list.
\<close>

definition handleAction_begin :: "card_stack \<Rightarrow> string \<Rightarrow> action \<Rightarrow> card_stack" where
  "handleAction_begin s emailId act =
     s\<lparr>exitDirection := Some act,
       emails := filter (\<lambda>email. id' email \<noteq> emailId) (emails s)\<rparr>"

text \<open>The body that it posts: \<^verbatim>\<open>JSON.stringify({ emailId, action })\<close>, as the server parses it.\<close>

definition action_request :: "string \<Rightarrow> action \<Rightarrow> json" where
  "action_request emailId act =
     JObj [(''emailId'', JStr emailId), (''action'', JStr (action_name act))]"

text \<open>
  The rest runs when \<^verbatim>\<open>fetch\<close> settles: with a response, whose \<^verbatim>\<open>ok\<close> says whether the
  status is in 200..299 and whose text is the body, or with an exception. The state is
  returned with the lines written by \<^verbatim>\<open>console.error\<close>.
\<close>

datatype fetch_result = Responds bool string | Throws string

fun handleAction_settle :: "card_stack \<Rightarrow> fetch_result \<Rightarrow> card_stack \<times> (string \<times> string) list" where
  "handleAction_settle s (Responds ok body) =
     (if \<not> ok then (s, [(''Failed to save action to backend:'', body)]) else (s, []))"
| "handleAction_settle s (Throws err) =
     (s, [(''Error communicating with backend:'', err)])"

definition handleAction ::
  "card_stack \<Rightarrow> string \<Rightarrow> action \<Rightarrow> fetch_result \<Rightarrow> card_stack \<times> (string \<times> string) list" where
  "handleAction s emailId act r = handleAction_settle (handleAction_begin s emailId act) r"

text \<open>
  What the component renders: the card of \<^verbatim>\<open>emails[emails.length - 1]\<close> when the list
  has an element, and the closing line when it has none.
\<close>

definition rendered_cards :: "card_stack \<Rightarrow> EmailSummary list" where
  "rendered_cards s =
     (if length (emails s) > 0 then [emails s ! (length (emails s) - 1)] else [])"

definition all_reviewed_line :: "card_stack \<Rightarrow> bool" where
  "all_reviewed_line s = (length (emails s) = 0)"

text \<open>The \<^verbatim>\<open>onAction\<close> of the rendered card, up to the \<^verbatim>\<open>await\<close>.\<close>

definition onAction :: "card_stack \<Rightarrow> action \<Rightarrow> card_stack" where
  "onAction s act =
     handleAction_begin s (id' (emails s ! (length (emails s) - 1))) act"

subsection \<open>Sample data\<close>

text \<open>
  A stored email of the user \<^verbatim>\<open>default\<close> with all the fields that the gateway reads,
  for the concrete instances below.
\<close>

definition sample_doc ::
  "string \<Rightarrow> bool \<Rightarrow> bool \<Rightarrow> fsval \<Rightarrow> string \<Rightarrow> string \<Rightarrow> doc_data" where
  "sample_doc gid rd dis date summ snip =
     [''user_id'' \<mapsto> FStr ''default'', ''gmail_id'' \<mapsto> FStr gid,
      ''is_read'' \<mapsto> FBool rd, ''discard'' \<mapsto> FBool dis, ''received_date'' \<mapsto> date,
      ''subject'' \<mapsto> FStr ''Hello'', ''sender'' \<mapsto> FStr ''ann@example.org'',
      ''summary'' \<mapsto> FStr summ, ''snippet'' \<mapsto> FStr snip,
      ''body'' \<mapsto> FStr ''Hello, world'', ''is_important'' \<mapsto> FBool False]"

text \<open>The object that the gateway builds for such a document with a timestamp.\<close>

definition sample_email :: "string \<Rightarrow> int \<Rightarrow> string \<Rightarrow> email_json" where
  "sample_email gid t summ =
     \<lparr>email_json.id' = Some (FStr gid), subject = Some (FStr ''Hello''),
      sender = Some (FStr ''ann@example.org''), summary = Some (FStr summ),
      fullContent = Some (FStr ''Hello, world''), receivedDate = t,
      actionRequired = FBool False, actionDescription = None, status = ''none''\<rparr>"

text \<open>Three stored emails: one unread, one read, one discarded.\<close>

definition sample_collection :: collection where
  "sample_collection =
     [(''d1'', sample_doc ''m1'' False False (FTime 1000) ''Lunch at noon'' ''Hi''),
      (''d2'', sample_doc ''m2'' True False (FTime 2000) ''Invoice'' ''Dear''),
      (''d3'', sample_doc ''m3'' False True (FTime 3000) ''Sale'' ''Buy'')]"

text \<open>Unread emails of the user, numbered from 0, the later ones newer.\<close>

definition two_digits :: "nat \<Rightarrow> string" where
  "two_digits k = [char_of (48 + k div 10), char_of (48 + k mod 10)]"

definition unread_emails :: "nat \<Rightarrow> collection" where
  "unread_emails n =
     map (\<lambda>k. (''d'' @ two_digits k,
                sample_doc (''m'' @ two_digits k) False False (FTime (1000 * int k)) ''Note'' ''Hi''))
       [0..<n]"

text \<open>The same emails, stored for another user.\<close>

definition unread_emails_of :: "string \<Rightarrow> nat \<Rightarrow> collection" where
  "unread_emails_of owner n =
     map (\<lambda>d. (fst d, (snd d)(''user_id'' \<mapsto> FStr owner))) (unread_emails n)"

text \<open>
  An engine whose stack holds a given number of nested joins: it cannot join an array
  that is nested deeper. \<open>nested n\<close> is the empty array wrapped in \<open>n\<close> arrays.
\<close>

fun nesting :: "json \<Rightarrow> nat" where
  "nesting (JArr xs) = Suc (foldr max (map nesting xs) 0)"
| "nesting v = 0"

definition stack_of :: "nat \<Rightarrow> engine" where
  "stack_of n v = (n < nesting v)"

fun nested :: "nat \<Rightarrow> json" where
  "nested 0 = JArr []"
| "nested (Suc n) = JArr [nested n]"

text \<open>An item of the card stack.\<close>

definition sample_item :: "string \<Rightarrow> EmailSummary" where
  "sample_item i =
     \<lparr>id' = i, subject = ''Hello'', sender = ''ann@example.org'', summary = ''Lunch at noon'',
      receivedDate = ''2024-05-01T12:00:00.000Z'', actionRequired = False,
      fullContent = ''Hello, world'', actionDescription = None, status = StatusNone\<rparr>"

section \<open>Properties\<close>

subsection \<open>The query\<close>

lemma emailsSnapshot_eq:
  "emailsSnapshot c =
     take 20 (rev (sort_key (order_key ''received_date'') (filter (\<lambda>d. query_matches (snd d)) c)))"
  by (simp add: emailsSnapshot_def limit_def order_by_desc_def where_eq_def
      query_matches_def disposition_unread_def conj_commute conj_left_commute cong: conj_cong)

lemma in_emailsSnapshotD:
  assumes "d \<in> set (emailsSnapshot c)"
  shows "d \<in> set c" and "query_matches (snd d)"
proof -
  from assms have "d \<in> set (rev (sort_key (order_key ''received_date'')
      (filter (\<lambda>d. query_matches (snd d)) c)))"
    unfolding emailsSnapshot_eq by (rule in_set_takeD)
  then show "d \<in> set c" and "query_matches (snd d)" by simp_all
qed

lemma map_docs_Inr:
  "map_docs now ds = Inr es \<Longrightarrow> list_all2 (\<lambda>d e. to_email now (snd d) = Inr e) ds es"
proof (induction ds arbitrary: es)
  case Nil
  then show ?case by simp
next
  case (Cons d ds)
  then show ?case by (auto split: sum.splits)
qed

lemma GET_EmailsBodyD:
  assumes "json_body (GET (Holds c) now) = EmailsBody es"
  shows "map_docs now (emailsSnapshot c) = Inr es"
  using assms by (auto simp: GET_def split: if_splits sum.splits)

lemma GET_emails_of_snapshot:
  assumes "json_body (GET (Holds c) now) = EmailsBody es"
  shows "list_all2 (\<lambda>d e. to_email now (snd d) = Inr e) (emailsSnapshot c) es"
  using assms by (intro map_docs_Inr GET_EmailsBodyD)

lemma order_key_FTime:
  assumes "order_key f d' \<le> order_key f d"
    and "(snd d) f = Some (FTime t)" and "(snd d') f = Some (FTime t')"
  shows "t' \<le> t"
  using assms by (auto simp: order_key_def less_eq_prod_def less_prod_def split: if_splits)

lemma sorted_emailsSnapshot:
  "sorted_wrt (\<lambda>d d'. order_key ''received_date'' d' \<le> order_key ''received_date'' d) (emailsSnapshot c)"
proof -
  let ?k = "order_key ''received_date''"
  let ?xs = "sort_key ?k (filter (\<lambda>d. query_matches (snd d)) c)"
  have "sorted (map ?k ?xs)" by (rule sorted_sort_key)
  then have "sorted_wrt (\<lambda>d d'. ?k d \<le> ?k d') ?xs"
    by (simp add: sorted_wrt_map)
  then have "sorted_wrt (\<lambda>d d'. ?k d' \<le> ?k d) (rev ?xs)"
    by (simp add: sorted_wrt_rev)
  then show ?thesis
    unfolding emailsSnapshot_eq by (rule sorted_wrt_take)
qed

lemma length_emailsSnapshot_full:
  assumes "20 \<le> length (filter (\<lambda>d. query_matches (snd d)) c)"
  shows "length (emailsSnapshot c) = 20"
  using assms unfolding emailsSnapshot_eq by simp

lemma length_emailsSnapshot: "length (emailsSnapshot c) \<le> 20"
  unfolding emailsSnapshot_eq by simp

lemma list_all2_in_set2:
  assumes "list_all2 P xs ys" and "y \<in> set ys"
  shows "\<exists>x\<in>set xs. P x y"
  using assms by (induction rule: list_all2_induct) auto

lemma sorted_wrt_list_all2:
  assumes rel: "list_all2 Q xs ys" and sorted: "sorted_wrt R xs"
    and step: "\<And>x x' y y'. Q x y \<Longrightarrow> Q x' y' \<Longrightarrow> x \<in> set xs \<Longrightarrow> x' \<in> set xs \<Longrightarrow> R x x' \<Longrightarrow> S y y'"
  shows "sorted_wrt S ys"
proof -
  have len: "length xs = length ys"
    using rel by (rule list_all2_lengthD)
  have Q: "Q (xs ! i) (ys ! i)" if "i < length xs" for i
    using rel that by (rule list_all2_nthD)
  show ?thesis
    unfolding sorted_wrt_iff_nth_less
  proof (intro allI impI)
    fix i j
    assume ij: "i < j" and "j < length ys"
    then have j: "j < length xs" and i: "i < length xs"
      using len by simp_all
    from sorted ij j have "R (xs ! i) (xs ! j)"
      by (simp add: sorted_wrt_iff_nth_less)
    with Q [OF i] Q [OF j] nth_mem [OF i] nth_mem [OF j]
    show "S (ys ! i) (ys ! j)"
      by (rule step)
  qed
qed

lemma to_email_FTime:
  assumes "to_email now data = Inr e" and "data ''received_date'' = Some (FTime t)"
  shows "email_json.receivedDate e = t"
  using assms by (auto simp: to_email_def)

lemma map_docs_total:
  assumes "\<forall>d\<in>set ds. \<exists>e. to_email now (snd d) = Inr e"
  shows "\<exists>es. map_docs now ds = Inr es"
  using assms by (induction ds) auto

lemma to_email_total:
  assumes "receivedDate_of now (data ''received_date'') = Inr t"
  shows "\<exists>e. to_email now data = Inr e"
  using assms by (simp add: to_email_def)

lemma GET_ok:
  assumes "\<forall>d\<in>set (emailsSnapshot c). \<exists>t. receivedDate_of now ((snd d) ''received_date'') = Inr t"
  shows "\<exists>es. GET (Holds c) now = \<lparr>http_status = 200, json_body = EmailsBody es\<rparr>"
proof -
  from assms have "\<forall>d\<in>set (emailsSnapshot c). \<exists>e. to_email now (snd d) = Inr e"
    using to_email_total by blast
  then obtain es where "map_docs now (emailsSnapshot c) = Inr es"
    using map_docs_total by blast
  then show ?thesis
    by (cases "emailsSnapshot c = []") (auto simp: GET_def)
qed

lemma to_email_summary:
  assumes "to_email now data = Inr e"
  shows "email_json.summary e =
    (if truthy (data ''summary'') then data ''summary'' else data ''snippet'')"
  using assms by (auto simp: to_email_def split: sum.splits)

lemma nonempty_text_truthy: "nonempty_text v \<Longrightarrow> truthy v"
  by (induction v rule: nonempty_text.induct) simp_all

subsection \<open>The sample data\<close>

lemma sample_doc_unread_matches:
  "query_matches (sample_doc gid False False (FTime t) summ snip)"
  by (simp add: sample_doc_def query_matches_def disposition_unread_def userId_def)

lemma sample_doc_received_date:
  "sample_doc gid rd dis date summ snip ''received_date'' = Some date"
  by (simp add: sample_doc_def)

lemma unread_emails_matches:
  "d \<in> set (unread_emails n) \<Longrightarrow>
     query_matches (snd d) \<and> (\<exists>t. (snd d) ''received_date'' = Some (FTime t))"
  by (auto simp: unread_emails_def sample_doc_unread_matches sample_doc_received_date)

lemma sample_doc_summary:
  "sample_doc gid rd dis date summ snip ''summary'' = Some (FStr summ)"
  "sample_doc gid rd dis date summ snip ''snippet'' = Some (FStr snip)"
  by (simp_all add: sample_doc_def)

lemma unread_emails_of_other:
  assumes "d \<in> set (unread_emails_of ''u1'' n)"
  shows "disposition_unread (snd d) \<and> (snd d) ''user_id'' = Some (FStr ''u1'') \<and>
    \<not> query_matches (snd d)"
  using assms
  by (auto simp: unread_emails_of_def unread_emails_def sample_doc_def query_matches_def
      disposition_unread_def userId_def)

lemma emailsSnapshot_no_match:
  assumes "\<forall>d\<in>set c. \<not> query_matches (snd d)"
  shows "emailsSnapshot c = []"
proof -
  from assms have "filter (\<lambda>d. query_matches (snd d)) c = []"
    by (simp add: filter_empty_conv)
  then show ?thesis
    by (simp add: emailsSnapshot_eq)
qed

subsection \<open>The action endpoint and the card stack\<close>

lemma POST_action_request:
  "POST exhausts db (Some (action_request emailId act)) = (db, action_disabled)"
  by (simp add: POST_def action_request_def)

lemma POST_keeps_collection: "fst (POST exhausts db request) = db"
  by (auto simp: POST_def split: option.splits prod.splits if_splits)

lemma property_None_iff: "property v name = None \<longleftrightarrow> v = JNull"
  by (cases "(v, name)" rule: property.cases) simp_all

lemma handleAction_settle_state: "fst (handleAction_settle s r) = s"
  by (cases r) simp_all

lemma emails_handleAction_begin:
  "emails (handleAction_begin s emailId act) =
     filter (\<lambda>email. id' email \<noteq> emailId) (emails s)"
  by (simp add: handleAction_begin_def)

lemma last_nth: "xs \<noteq> [] \<Longrightarrow> xs ! (length xs - Suc 0) = last xs"
  by (simp add: last_conv_nth)

lemma to_string_raises_converted:
  "to_string_raises exhausts v = list_ex (stops_conversion exhausts) (converted v)"
proof (induction v)
  case (JArr xs)
  then have "list_ex (to_string_raises exhausts) xs =
      list_ex (stops_conversion exhausts) (concat (map converted xs))"
    by (induction xs) simp_all
  then show ?case by simp
qed simp_all

lemma template_raises_loggable:
  "template_raises exhausts x = (\<not> loggable exhausts x)"
  by (cases x)
    (simp_all add: loggable_def to_string_raises_converted list_ex_iff list_all_iff)

lemma loggable_primitive:
  "loggable exhausts None" "loggable exhausts (Some JNull)" "loggable exhausts (Some (JBool b))"
  "loggable exhausts (Some (JNum n))" "loggable exhausts (Some (JStr s))"
  by (simp_all add: loggable_def)

lemma nesting_nested: "nesting (nested n) = Suc n"
  by (induction n) simp_all

lemma nested_is_array: "\<exists>xs. nested n = JArr xs"
  by (cases n) simp_all

subsection \<open>The gateway serves unread records only\<close>

text \<open>
  Claim C1. A stored record whose disposition is not unread (it is read, or discarded) is
  not among the documents of the gateway's query; and every email of a response of
  \<^verbatim>\<open>GET /emails\<close> is the image of a stored record of the user whose disposition is
  unread.
\<close>

theorem gateway_serves_unread_only:
  "(\<forall>d\<in>set c. \<not> disposition_unread (snd d) \<longrightarrow> d \<notin> set (emailsSnapshot c)) \<and>
   (\<forall>es. json_body (GET (Holds c) now) = EmailsBody es \<longrightarrow>
      (\<forall>e\<in>set es. \<exists>d\<in>set c. disposition_unread (snd d) \<and>
          (snd d) ''user_id'' = Some (FStr userId) \<and> to_email now (snd d) = Inr e))"
proof (intro conjI ballI allI impI)
  fix d
  assume "d \<in> set c" and "\<not> disposition_unread (snd d)"
  then show "d \<notin> set (emailsSnapshot c)"
    using in_emailsSnapshotD(2) [of d c] by (auto simp: query_matches_def)
next
  fix es e
  assume "json_body (GET (Holds c) now) = EmailsBody es" and "e \<in> set es"
  then obtain d where "d \<in> set (emailsSnapshot c)" and "to_email now (snd d) = Inr e"
    using list_all2_in_set2 [OF GET_emails_of_snapshot] by blast
  then show "\<exists>d\<in>set c. disposition_unread (snd d) \<and>
      (snd d) ''user_id'' = Some (FStr userId) \<and> to_email now (snd d) = Inr e"
    using in_emailsSnapshotD [of d c] by (auto simp: query_matches_def)
qed

text \<open>
  On the sample collection: the read and the discarded record are not in the snapshot,
  and the one email served comes from the unread record.
\<close>

theorem gateway_serves_unread_only_witness:
  "(''d2'', sample_doc ''m2'' True False (FTime 2000) ''Invoice'' ''Dear'') \<notin>
     set (emailsSnapshot sample_collection) \<and>
   (''d3'', sample_doc ''m3'' False True (FTime 3000) ''Sale'' ''Buy'') \<notin>
     set (emailsSnapshot sample_collection) \<and>
   json_body (GET (Holds sample_collection) 5000) =
     EmailsBody [sample_email ''m1'' 1000 ''Lunch at noon''] \<and>
   (\<exists>d\<in>set sample_collection. disposition_unread (snd d) \<and>
      to_email 5000 (snd d) = Inr (sample_email ''m1'' 1000 ''Lunch at noon''))"
proof -
  have body: "json_body (GET (Holds sample_collection) 5000) =
      EmailsBody [sample_email ''m1'' 1000 ''Lunch at noon'']"
    by code_simp
  have d2: "\<not> disposition_unread (sample_doc ''m2'' True False (FTime 2000) ''Invoice'' ''Dear'')"
    by (simp add: disposition_unread_def sample_doc_def)
  have d3: "\<not> disposition_unread (sample_doc ''m3'' False True (FTime 3000) ''Sale'' ''Buy'')"
    by (simp add: disposition_unread_def sample_doc_def)
  from gateway_serves_unread_only [of sample_collection 5000] body d2 d3 show ?thesis
    by (auto simp: sample_collection_def)
qed

subsection \<open>The page: at most twenty emails, newest first\<close>

text \<open>
  Claim C3, as stated: for every owner, when 25 unread records exist, the response has
  exactly 20. The handler takes no owner: it asks for the records of the user
  \<^verbatim>\<open>default\<close>. With 25 unread records stored for the user \<^verbatim>\<open>u1\<close>, the response has no
  email.
\<close>

theorem other_owner_is_not_served:
  "length (filter (\<lambda>d. disposition_unread (snd d) \<and> (snd d) ''user_id'' = Some (FStr ''u1''))
      (unread_emails_of ''u1'' 25)) = 25 \<and>
   GET (Holds (unread_emails_of ''u1'' 25)) 99999 =
     \<lparr>http_status = 200, json_body = EmailsBody []\<rparr>"
proof -
  let ?c = "unread_emails_of ''u1'' 25"
  have "\<forall>d\<in>set ?c. disposition_unread (snd d) \<and> (snd d) ''user_id'' = Some (FStr ''u1'')"
    using unread_emails_of_other by blast
  then have "filter (\<lambda>d. disposition_unread (snd d) \<and> (snd d) ''user_id'' = Some (FStr ''u1'')) ?c = ?c"
    by (simp only: filter_id_conv)
  moreover have "length ?c = 25"
    by (simp add: unread_emails_of_def unread_emails_def)
  moreover have "emailsSnapshot ?c = []"
    using unread_emails_of_other by (intro emailsSnapshot_no_match) blast
  then have "GET (Holds ?c) 99999 = \<lparr>http_status = 200, json_body = EmailsBody []\<rparr>"
    by (simp add: GET_def)
  ultimately show ?thesis by simp
qed

text \<open>
  Claim C3, amended. A response of \<^verbatim>\<open>GET /emails\<close> has at most 20 emails; it has exactly 20
  when at least 20 stored records (25, say) match the query: unread, of the user
  \<^verbatim>\<open>default\<close>, with a \<^verbatim>\<open>received_date\<close>. The emails stand in the order of the snapshot's
  documents, which is descending in the stored \<^verbatim>\<open>received_date\<close>; when the matching
  records carry timestamps, the \<^verbatim>\<open>receivedDate\<close>s of the response are descending, newest
  first.
\<close>

theorem gateway_page_size_and_order:
  assumes "json_body (GET (Holds c) now) = EmailsBody es"
  shows "length es \<le> 20 \<and>
    (20 \<le> length (filter (\<lambda>d. query_matches (snd d)) c) \<longrightarrow> length es = 20) \<and>
    list_all2 (\<lambda>d e. to_email now (snd d) = Inr e) (emailsSnapshot c) es \<and>
    sorted_wrt (\<lambda>d d'. order_key ''received_date'' d' \<le> order_key ''received_date'' d)
      (emailsSnapshot c) \<and>
    ((\<forall>d\<in>set c. query_matches (snd d) \<longrightarrow> (\<exists>t. (snd d) ''received_date'' = Some (FTime t))) \<longrightarrow>
       sorted_wrt (\<lambda>e e'. email_json.receivedDate e' \<le> email_json.receivedDate e) es)"
proof -
  let ?snap = "emailsSnapshot c"
  have rel: "list_all2 (\<lambda>d e. to_email now (snd d) = Inr e) ?snap es"
    using assms by (rule GET_emails_of_snapshot)
  then have len: "length es = length ?snap"
    by (simp add: list_all2_lengthD)
  have ord: "sorted_wrt (\<lambda>d d'. order_key ''received_date'' d' \<le> order_key ''received_date'' d) ?snap"
    by (rule sorted_emailsSnapshot)
  have dates: "sorted_wrt (\<lambda>e e'. email_json.receivedDate e' \<le> email_json.receivedDate e) es"
    if ts: "\<forall>d\<in>set c. query_matches (snd d) \<longrightarrow> (\<exists>t. (snd d) ''received_date'' = Some (FTime t))"
  proof (rule sorted_wrt_list_all2 [OF rel ord])
    fix d d' e e'
    assume e: "to_email now (snd d) = Inr e" and e': "to_email now (snd d') = Inr e'"
      and d: "d \<in> set ?snap" and d': "d' \<in> set ?snap"
      and le: "order_key ''received_date'' d' \<le> order_key ''received_date'' d"
    from d ts obtain t where t: "(snd d) ''received_date'' = Some (FTime t)"
      using in_emailsSnapshotD [of d c] by blast
    from d' ts obtain t' where t': "(snd d') ''received_date'' = Some (FTime t')"
      using in_emailsSnapshotD [of d' c] by blast
    from le t t' have "t' \<le> t" by (rule order_key_FTime)
    with e e' t t' show "email_json.receivedDate e' \<le> email_json.receivedDate e"
      by (simp add: to_email_FTime)
  qed
  from len rel ord dates show ?thesis
    by (simp add: length_emailsSnapshot length_emailsSnapshot_full)
qed

text \<open>With 25 unread emails stored, the response has exactly 20, newest first.\<close>

theorem gateway_page_size_and_order_witness:
  "\<exists>es. json_body (GET (Holds (unread_emails 25)) 99999) = EmailsBody es \<and> length es = 20 \<and>
     sorted_wrt (\<lambda>e e'. email_json.receivedDate e' \<le> email_json.receivedDate e) es"
proof -
  let ?c = "unread_emails 25"
  have ts: "\<forall>d\<in>set ?c. query_matches (snd d) \<longrightarrow> (\<exists>t. (snd d) ''received_date'' = Some (FTime t))"
    using unread_emails_matches by blast
  have "\<exists>t. receivedDate_of 99999 ((snd d) ''received_date'') = Inr t"
    if "d \<in> set (emailsSnapshot ?c)" for d
  proof -
    from that have "d \<in> set ?c" by (rule in_emailsSnapshotD(1))
    then obtain t where "(snd d) ''received_date'' = Some (FTime t)"
      using unread_emails_matches by blast
    then show ?thesis by simp
  qed
  then obtain es where es: "json_body (GET (Holds ?c) 99999) = EmailsBody es"
    using GET_ok [of ?c 99999] by auto
  have "\<forall>d\<in>set ?c. query_matches (snd d)"
    using unread_emails_matches by blast
  then have "filter (\<lambda>d. query_matches (snd d)) ?c = ?c"
    by (simp only: filter_id_conv)
  moreover have "length ?c = 25"
    by (simp add: unread_emails_def)
  ultimately have n: "20 \<le> length (filter (\<lambda>d. query_matches (snd d)) ?c)"
    by simp
  from gateway_page_size_and_order [OF es] ts n es show ?thesis
    by blast
qed

subsection \<open>The summary of an email\<close>

text \<open>
  Claim C7, as stated: every email of a response has a non-empty summary. It fails for a
  stored record whose summary and snippet are both empty: the email's summary is the
  empty string.
\<close>

theorem summary_can_be_empty:
  "json_body (GET (Holds [(''d1'', sample_doc ''m1'' False False (FTime 1000) [] [])]) 5000) =
     EmailsBody [sample_email ''m1'' 1000 []] \<and>
   \<not> nonempty_text (email_json.summary (sample_email ''m1'' 1000 []))"
  by code_simp

text \<open>
  Claim C7, amended. The summary of every email of a response is the stored summary when
  that is a non-empty string, and the stored snippet when the stored summary is falsy
  (missing, null or empty). It is a non-empty string exactly when the stored summary is
  one, or the stored summary is falsy and the stored snippet is one.
\<close>

theorem summary_falls_back_to_snippet:
  assumes "json_body (GET (Holds c) now) = EmailsBody es" and "e \<in> set es"
  shows "\<exists>d\<in>set c. to_email now (snd d) = Inr e \<and>
    (nonempty_text ((snd d) ''summary'') \<longrightarrow> email_json.summary e = (snd d) ''summary'') \<and>
    (\<not> truthy ((snd d) ''summary'') \<longrightarrow> email_json.summary e = (snd d) ''snippet'') \<and>
    (nonempty_text (email_json.summary e) \<longleftrightarrow>
       nonempty_text ((snd d) ''summary'') \<or>
       \<not> truthy ((snd d) ''summary'') \<and> nonempty_text ((snd d) ''snippet''))"
proof -
  from assms obtain d where d: "d \<in> set (emailsSnapshot c)" and e: "to_email now (snd d) = Inr e"
    using list_all2_in_set2 [OF GET_emails_of_snapshot] by blast
  from d have "d \<in> set c" by (rule in_emailsSnapshotD(1))
  moreover have "(nonempty_text ((snd d) ''summary'') \<longrightarrow> email_json.summary e = (snd d) ''summary'') \<and>
    (\<not> truthy ((snd d) ''summary'') \<longrightarrow> email_json.summary e = (snd d) ''snippet'') \<and>
    (nonempty_text (email_json.summary e) \<longleftrightarrow>
       nonempty_text ((snd d) ''summary'') \<or>
       \<not> truthy ((snd d) ''summary'') \<and> nonempty_text ((snd d) ''snippet''))"
    using to_email_summary [OF e] nonempty_text_truthy [of "(snd d) ''summary''"]
    by auto
  ultimately show ?thesis using e by blast
qed

text \<open>
  On the sample collection the summary served is the stored one; for a record with an
  empty summary it is the snippet.
\<close>

theorem summary_falls_back_to_snippet_witness:
  "json_body (GET (Holds sample_collection) 5000) =
     EmailsBody [sample_email ''m1'' 1000 ''Lunch at noon''] \<and>
   (\<exists>d\<in>set sample_collection.
      to_email 5000 (snd d) = Inr (sample_email ''m1'' 1000 ''Lunch at noon'') \<and>
      email_json.summary (sample_email ''m1'' 1000 ''Lunch at noon'') = (snd d) ''summary'') \<and>
   json_body (GET (Holds [(''d4'', sample_doc ''m4'' False False (FTime 4000) [] ''Hi'')]) 5000) =
     EmailsBody [sample_email ''m4'' 4000 ''Hi''] \<and>
   email_json.summary (sample_email ''m4'' 4000 ''Hi'') =
     sample_doc ''m4'' False False (FTime 4000) [] ''Hi'' ''snippet''"
proof -
  let ?e = "sample_email ''m1'' 1000 ''Lunch at noon''"
  have body: "json_body (GET (Holds sample_collection) 5000) = EmailsBody [?e]"
    by code_simp
  have "\<forall>d\<in>set sample_collection. nonempty_text ((snd d) ''summary'')"
    by (simp add: sample_collection_def sample_doc_summary)
  with summary_falls_back_to_snippet [OF body, of ?e]
  have first: "\<exists>d\<in>set sample_collection. to_email 5000 (snd d) = Inr ?e \<and>
      email_json.summary ?e = (snd d) ''summary''"
    by auto
  let ?d = "sample_doc ''m4'' False False (FTime 4000) [] ''Hi''"
  let ?e' = "sample_email ''m4'' 4000 ''Hi''"
  have body': "json_body (GET (Holds [(''d4'', ?d)]) 5000) = EmailsBody [?e']"
    by code_simp
  have "\<not> truthy (?d ''summary'')"
    by (simp add: sample_doc_summary)
  with summary_falls_back_to_snippet [OF body', of ?e']
  have second: "email_json.summary ?e' = ?d ''snippet''"
    by auto
  from body first body' second show ?thesis
    by blast
qed

subsection \<open>A received date that is no timestamp\<close>

text \<open>
  Claim C8 says that a malformed \<^verbatim>\<open>received_date\<close> never makes the response fail. The
  handler tests whether the value has a truthy property \<^verbatim>\<open>toDate\<close>, not whether it is
  a timestamp: a map with a key \<^verbatim>\<open>toDate\<close> passes the test, the call raises, and the
  whole response is the error 500, also for the well-formed record beside it.
\<close>

theorem toDate_map_breaks_page:
  "GET (Holds
     [(''d1'', sample_doc ''m1'' False False (FTime 1000) ''Lunch at noon'' ''Hi''),
      (''d5'', sample_doc ''m5'' False False (FMap [(''toDate'', FStr ''tomorrow'')])
         ''Invoice'' ''Dear'')]) 5000 =
   \<lparr>http_status = 500,
    json_body = ErrorBody ''Failed to fetch emails from Firestore.''
      ''data.received_date.toDate is not a function''\<rparr>"
  by code_simp

text \<open>
  What the handler does for the other values: a record without the field is not served
  at all, since \<^verbatim>\<open>orderBy\<close> drops it, and every value that is no timestamp, when its
  record is mapped, is replaced by the time of the request.
\<close>

lemma missing_received_date_not_served:
  assumes "(snd d) ''received_date'' = None"
  shows "d \<notin> set (emailsSnapshot c)"
  using assms in_emailsSnapshotD(2) [of d c] by (auto simp: query_matches_def)

lemma receivedDate_of_cases:
  "receivedDate_of now v =
     (case v of
        Some (FTime t) \<Rightarrow> Inr t
      | Some (FMap kvs) \<Rightarrow>
          (if truthy (map_of kvs ''toDate'')
           then Inl ''data.received_date.toDate is not a function'' else Inr now)
      | _ \<Rightarrow> Inr now)"
  by (cases "(now, v)" rule: receivedDate_of.cases) simp_all

lemma query_time_substituted:
  assumes "to_email now data = Inr e"
    and "\<forall>t. data ''received_date'' \<noteq> Some (FTime t)"
  shows "email_json.receivedDate e = now"
  using assms
  by (auto simp: to_email_def receivedDate_of_cases split: sum.splits option.splits fsval.splits if_splits)

subsection \<open>The action endpoint stores nothing\<close>

text \<open>
  Claim C2, as stated: a successful call sets the stored disposition to the requested
  state. It fails: after the successful call that discards the unread sample email
  \<^verbatim>\<open>m1\<close>, the collection is what it was, and the record is still unread, its field
  \<^verbatim>\<open>discard\<close> still false.
\<close>

theorem disposition_not_stored:
  "snd (POST (stack_of 4096) sample_collection (Some (action_request ''m1'' Discard))) = action_disabled \<and>
   success (json_body action_disabled) \<and>
   fst (POST (stack_of 4096) sample_collection (Some (action_request ''m1'' Discard))) = sample_collection \<and>
   (\<exists>d\<in>set (fst (POST (stack_of 4096) sample_collection (Some (action_request ''m1'' Discard)))).
      (snd d) ''gmail_id'' = Some (FStr ''m1'') \<and> (snd d) ''discard'' = Some (FBool False) \<and>
      disposition_unread (snd d))"
  by (simp add: POST_action_request action_disabled_def sample_collection_def sample_doc_def
      disposition_unread_def)

text \<open>
  Claim C2, amended. For every request that carries an email id and one of the actions
  keep, discard or flag, the handler reports success (status 200, \<^verbatim>\<open>success\<close> true,
  message "Action disabled.") and leaves the stored collection as it is: no disposition
  is changed, and the gateway's query gives what it gave before.
\<close>

theorem action_reports_success_and_stores_nothing:
  "POST exhausts db (Some (action_request emailId act)) = (db, action_disabled) \<and>
   http_status action_disabled = 200 \<and> success (json_body action_disabled) \<and>
   emailsSnapshot (fst (POST exhausts db (Some (action_request emailId act)))) = emailsSnapshot db"
  by (simp add: POST_action_request action_disabled_def)

text \<open>
  Claim C6. Submitting the same action twice for the same email is idempotent: the
  collection after the second call is the collection after the first, and both calls
  report success.
\<close>

theorem resubmitted_action_is_idempotent:
  "fst (POST exhausts (fst (POST exhausts db (Some (action_request emailId act))))
          (Some (action_request emailId act))) =
     fst (POST exhausts db (Some (action_request emailId act))) \<and>
   success (json_body (snd (POST exhausts db (Some (action_request emailId act))))) \<and>
   success (json_body (snd (POST exhausts (fst (POST exhausts db (Some (action_request emailId act))))
          (Some (action_request emailId act)))))"
  by (simp add: POST_action_request action_disabled_def)

text \<open>
  Claim C10, as stated: every body that parses as JSON gets the response 200. It fails
  for the body \<^verbatim>\<open>null\<close>, which is JSON: the destructuring raises, and the response is
  the error 500.
\<close>

theorem null_body_is_rejected:
  "POST (stack_of 4096) sample_collection (Some JNull) = (sample_collection, internal_server_error) \<and>
   http_status internal_server_error = 500 \<and> \<not> success (json_body internal_server_error)"
  by (simp add: POST_def internal_server_error_def)

text \<open>
  So does an action that is an object with a key \<^verbatim>\<open>toString\<close>, on every engine: the log
  line cannot be built.
\<close>

lemma toString_key_is_rejected:
  "POST exhausts db
     (Some (JObj [(''emailId'', JStr ''m1''), (''action'', JObj [(''toString'', JNum 1)])])) =
   (db, internal_server_error)"
  by (simp add: POST_def)

text \<open>
  And so does an action that is an array nested deeper than the engine's stack holds:
  4097 levels, on an engine whose stack holds 4096.
\<close>

lemma deep_array_is_rejected:
  "POST (stack_of 4096) db
     (Some (JObj [(''emailId'', JStr ''m1''), (''action'', nested 4096)])) =
   (db, internal_server_error)"
proof -
  obtain xs where xs: "nested 4096 = JArr xs"
    using nested_is_array by blast
  have "stack_of 4096 (nested 4096)"
    by (simp add: stack_of_def nesting_nested)
  with xs have "to_string_raises (stack_of 4096) (nested 4096)"
    by simp
  then show ?thesis
    by (simp add: POST_def)
qed

text \<open>
  Claim C10, amended. The collection is never changed, on any engine. A body that is no
  JSON, and the body \<^verbatim>\<open>null\<close>, get the error 500 with \<^verbatim>\<open>success\<close> false. A body that
  is a boolean, a number, a string or an array has neither property and gets 200 with
  \<^verbatim>\<open>success\<close> true and the message "Action disabled.". A body that is an object gets
  this response exactly when its \<^verbatim>\<open>emailId\<close> and its \<^verbatim>\<open>action\<close> can both be written
  into the log line, and the error 500 otherwise; it gets 200 for every pair of strings,
  whether or not the id names a stored record and the action is one of keep, discard
  and flag.
\<close>

theorem action_endpoint_response:
  "fst (POST exhausts db request) = db \<and>
   POST exhausts db None = (db, internal_server_error) \<and>
   POST exhausts db (Some JNull) = (db, internal_server_error) \<and>
   POST exhausts db (Some (JBool b)) = (db, action_disabled) \<and>
   POST exhausts db (Some (JNum n)) = (db, action_disabled) \<and>
   POST exhausts db (Some (JStr s)) = (db, action_disabled) \<and>
   POST exhausts db (Some (JArr xs)) = (db, action_disabled) \<and>
   POST exhausts db (Some (JObj kvs)) =
     (db, if loggable exhausts (map_of (rev kvs) ''emailId'') \<and>
             loggable exhausts (map_of (rev kvs) ''action'')
          then action_disabled else internal_server_error) \<and>
   POST exhausts db (Some (JObj [(''emailId'', JStr i), (''action'', JStr a)])) =
     (db, action_disabled)"
proof (intro conjI)
  show "fst (POST exhausts db request) = db"
    by (rule POST_keeps_collection)
  show "POST exhausts db (Some (JObj kvs)) =
     (db, if loggable exhausts (map_of (rev kvs) ''emailId'') \<and>
             loggable exhausts (map_of (rev kvs) ''action'')
          then action_disabled else internal_server_error)"
    by (simp add: POST_def template_raises_loggable)
qed (simp_all add: POST_def)

subsection \<open>The card stack\<close>

text \<open>
  Claim C4. An action on the visible card removes its item from the list at once, in the
  part of \<^verbatim>\<open>handleAction\<close> that runs before the request is sent: the item is no longer in
  the list, the card rendered is another one (or none), and no item with the id stays.
  Whatever the request's outcome, the state afterwards is the state of that moment.
\<close>

theorem optimistic_removal:
  "(emails s \<noteq> [] \<longrightarrow>
      last (emails s) \<notin> set (emails (onAction s act)) \<and>
      rendered_cards (onAction s act) \<noteq> rendered_cards s \<and>
      emails (onAction s act) =
        filter (\<lambda>email. id' email \<noteq> id' (last (emails s))) (emails s)) \<and>
   (\<forall>email\<in>set (emails (handleAction_begin s emailId act)). id' email \<noteq> emailId) \<and>
   fst (handleAction s emailId act r) = handleAction_begin s emailId act"
proof (intro conjI impI)
  assume ne: "emails s \<noteq> []"
  then have on: "emails (onAction s act) =
      filter (\<lambda>email. id' email \<noteq> id' (last (emails s))) (emails s)"
    by (simp add: onAction_def emails_handleAction_begin last_nth)
  then show gone: "last (emails s) \<notin> set (emails (onAction s act))"
    by simp
  show "rendered_cards (onAction s act) \<noteq> rendered_cards s"
  proof
    assume eq: "rendered_cards (onAction s act) = rendered_cards s"
    from ne have "rendered_cards s = [last (emails s)]"
      by (simp add: rendered_cards_def last_nth)
    with eq have "emails (onAction s act) \<noteq> []"
      and "last (emails (onAction s act)) = last (emails s)"
      by (auto simp: rendered_cards_def last_nth split: if_splits)
    then have "last (emails s) \<in> set (emails (onAction s act))"
      by (metis last_in_set)
    with gone show False ..
  qed
  from on show "emails (onAction s act) =
      filter (\<lambda>email. id' email \<noteq> id' (last (emails s))) (emails s)" .
next
  show "\<forall>email\<in>set (emails (handleAction_begin s emailId act)). id' email \<noteq> emailId"
    by (simp add: emails_handleAction_begin)
  show "fst (handleAction s emailId act r) = handleAction_begin s emailId act"
    by (simp add: handleAction_def handleAction_settle_state)
qed

text \<open>
  With two items, discarding the visible one leaves the other; a failing response
  changes nothing.
\<close>

theorem optimistic_removal_witness:
  "emails (EmailCardStack [sample_item ''m1'', sample_item ''m2'']) \<noteq> [] \<and>
   sample_item ''m2'' \<notin>
     set (emails (onAction (EmailCardStack [sample_item ''m1'', sample_item ''m2'']) Discard)) \<and>
   emails (onAction (EmailCardStack [sample_item ''m1'', sample_item ''m2'']) Discard) =
     [sample_item ''m1''] \<and>
   fst (handleAction (EmailCardStack [sample_item ''m1'', sample_item ''m2'']) ''m2'' Discard
         (Responds False ''Internal Server Error'')) =
     handleAction_begin (EmailCardStack [sample_item ''m1'', sample_item ''m2'']) ''m2'' Discard"
proof -
  let ?s = "EmailCardStack [sample_item ''m1'', sample_item ''m2'']"
  have ne: "emails ?s \<noteq> []"
    by (simp add: EmailCardStack_def)
  have l: "last (emails ?s) = sample_item ''m2''"
    by (simp add: EmailCardStack_def)
  have f: "filter (\<lambda>email. id' email \<noteq> id' (last (emails ?s))) (emails ?s) = [sample_item ''m1'']"
    by (simp add: EmailCardStack_def sample_item_def)
  from optimistic_removal [of ?s Discard "''m2''" "Responds False ''Internal Server Error''"]
    ne l f show ?thesis
    by (simp add: sample_item_def)
qed

text \<open>
  Claim C5 says that a failed action puts the item back on top of the stack. The handler
  only writes the failure to the console (its comments leave the rest to be done): with
  two items, after a discard of the visible item \<^verbatim>\<open>m2\<close> that the server answers with
  an error, the list holds \<^verbatim>\<open>m1\<close> alone.
\<close>

theorem failed_action_is_not_reverted:
  "handleAction (EmailCardStack [sample_item ''m1'', sample_item ''m2'']) ''m2'' Discard
     (Responds False ''Internal Server Error'') =
   (\<lparr>emails = [sample_item ''m1''], exitDirection = Some Discard\<rparr>,
    [(''Failed to save action to backend:'', ''Internal Server Error'')])"
  by (simp add: handleAction_def handleAction_begin_def EmailCardStack_def sample_item_def)

text \<open>In general, whatever the outcome, no item with the id is in the list afterwards.\<close>

lemma failure_leaves_item_out:
  "\<forall>email\<in>set (emails (fst (handleAction s emailId act r))). id' email \<noteq> emailId"
  by (simp add: handleAction_def handleAction_settle_state emails_handleAction_begin)

text \<open>
  Claim C9. When the list of emails has an element, exactly one card is rendered, and it
  shows the last element of the list; when the list is empty, no card is rendered (and
  the closing line is).
\<close>

theorem one_visible_card:
  "(emails s \<noteq> [] \<longrightarrow> rendered_cards s = [last (emails s)] \<and> \<not> all_reviewed_line s) \<and>
   (emails s = [] \<longrightarrow> rendered_cards s = [] \<and> all_reviewed_line s)"
  by (simp add: rendered_cards_def all_reviewed_line_def last_nth)

text \<open>With two items the second is shown; with none, the closing line.\<close>

theorem one_visible_card_witness:
  "emails (EmailCardStack [sample_item ''m1'', sample_item ''m2'']) \<noteq> [] \<and>
   rendered_cards (EmailCardStack [sample_item ''m1'', sample_item ''m2'']) = [sample_item ''m2''] \<and>
   emails (EmailCardStack []) = [] \<and>
   rendered_cards (EmailCardStack []) = [] \<and> all_reviewed_line (EmailCardStack [])"
proof -
  have "emails (EmailCardStack [sample_item ''m1'', sample_item ''m2'']) \<noteq> []"
    and "last (emails (EmailCardStack [sample_item ''m1'', sample_item ''m2''])) = sample_item ''m2''"
    and "emails (EmailCardStack []) = []"
    by (simp_all add: EmailCardStack_def)
  with one_visible_card [of "EmailCardStack [sample_item ''m1'', sample_item ''m2'']"]
    one_visible_card [of "EmailCardStack []"]
  show ?thesis by simp
qed

end
